theory Spec2Isabelle
  imports Main "HOL-Library.AList"
begin

section \<open>Python values used by the barcode clash checker\<close>

text \<open>
  A Python \<open>str\<close> is a sequence of Unicode code points; \<open>len\<close>, \<open>zip\<close>, iteration and
  \<open>==\<close> all work code point by code point. A string is therefore the list of its code
  points, and \<open>py\<close> turns an ASCII literal into that form.
\<close>

type_synonym pystr = "nat list"

definition py :: "string \<Rightarrow> pystr" where
  "py s = map of_char s"

text \<open>
  \<open>hamming_distance\<close> returns either an \<open>int\<close> (the value of \<open>sum\<close>) or the float
  \<open>float('inf')\<close>. The only operation applied to its result is \<open>distance <= max_distance\<close>
  against an integer threshold; Python compares an \<open>int\<close> with an \<open>int\<close> exactly, and
  \<open>inf <= n\<close> is \<open>False\<close> for every integer \<open>n\<close>.
\<close>

datatype pynum = PyInt int | FloatInf

fun num_le :: "pynum \<Rightarrow> int \<Rightarrow> bool" where
  "num_le (PyInt n) t = (n \<le> t)"
| "num_le FloatInf t = False"

text \<open>
  A clash record is a \<open>dict\<close> written as a dict display \<open>{k1: v1, k2: v2, k3: v3}\<close>. The
  items of a display are stored from left to right; storing under a key that is already
  present replaces the value and keeps the key's position. The dict is the association
  list in insertion order.
\<close>

datatype pyval = PyStr pystr | PyNum pynum

type_synonym pydict = "(pystr \<times> pyval) list"

definition dict_display :: "(pystr \<times> 'v) list \<Rightarrow> (pystr \<times> 'v) list" where
  "dict_display items = foldl (\<lambda>d (k, v). AList.update k v d) [] items"

text \<open>\<open>itertools.combinations(xs, 2)\<close>: the pairs \<open>(xs[i], xs[j])\<close> with \<open>i < j\<close>, in
  lexicographic order of the positions.\<close>

fun combinations2 :: "'a list \<Rightarrow> ('a \<times> 'a) list" where
  "combinations2 [] = []"
| "combinations2 (x # xs) = map (Pair x) xs @ combinations2 xs"

section \<open>The distance function\<close>

text \<open>
  \<^verbatim>\<open>
  def hamming_distance(s1, s2):
      if len(s1) != len(s2):
          return float('inf')
      return sum(c1 != c2 for c1, c2 in zip(s1, s2))
  \<close>
\<close>

definition hamming_distance :: "pystr \<Rightarrow> pystr \<Rightarrow> pynum" where
  "hamming_distance s1 s2 =
     (if length s1 \<noteq> length s2 then FloatInf
      else PyInt (sum_list (map (\<lambda>(c1, c2). of_bool (c1 \<noteq> c2)) (zip s1 s2))))"

section \<open>The within-set detector\<close>

text \<open>
  \<^verbatim>\<open>
  def check_barcodes_within_set(barcodes, max_distance):
      clashes = []
      barcode_list = list(set(barcodes))  # Remove duplicates
      for bc1, bc2 in combinations(barcode_list, 2):
          distance = hamming_distance(bc1, bc2)
          if distance <= max_distance:
              clashes.append({
                  'Barcode 1': bc1,
                  'Barcode 2': bc2,
                  'Hamming Distance': distance
              })
      return clashes, barcode_list
  \<close>
  The iteration order of a Python set of strings depends on the interpreter's string
  hashing, which is not part of the program. \<open>list(set(\<cdot>))\<close> is the parameter
  \<open>list_set\<close>; what Python guarantees about it (each element of the argument once) is a
  hypothesis of the theorems that need it, and \<open>remdups\<close> is one such function.
\<close>

definition within_record :: "pystr \<Rightarrow> pystr \<Rightarrow> pynum \<Rightarrow> pydict" where
  "within_record bc1 bc2 distance =
     dict_display [(py ''Barcode 1'', PyStr bc1),
                   (py ''Barcode 2'', PyStr bc2),
                   (py ''Hamming Distance'', PyNum distance)]"

definition check_barcodes_within_set ::
  "(pystr list \<Rightarrow> pystr list) \<Rightarrow> pystr list \<Rightarrow> int \<Rightarrow> pydict list \<times> pystr list" where
  "check_barcodes_within_set list_set barcodes max_distance =
     (let barcode_list = list_set barcodes;
          clashes = foldl (\<lambda>clashes (bc1, bc2).
                       let distance = hamming_distance bc1 bc2 in
                       if num_le distance max_distance
                       then clashes @ [within_record bc1 bc2 distance]
                       else clashes)
                     [] (combinations2 barcode_list)
      in (clashes, barcode_list))"

section \<open>The cross-set detector\<close>

text \<open>
  \<^verbatim>\<open>
  def check_barcodes_between_sets(set1, set2, max_distance,
                                  set1_name="Set 1", set2_name="Set 2"):
      clashes = []
      for bc1 in set1:
          for bc2 in set2:
              distance = hamming_distance(bc1, bc2)
              if distance <= max_distance:
                  clashes.append({
                      f'{set1_name} Barcode': bc1,
                      f'{set2_name} Barcode': bc2,
                      'Hamming Distance': distance
                  })
      return clashes
  \<close>
\<close>

definition between_record :: "pystr \<Rightarrow> pystr \<Rightarrow> pystr \<Rightarrow> pystr \<Rightarrow> pynum \<Rightarrow> pydict" where
  "between_record set1_name set2_name bc1 bc2 distance =
     dict_display [(set1_name @ py '' Barcode'', PyStr bc1),
                   (set2_name @ py '' Barcode'', PyStr bc2),
                   (py ''Hamming Distance'', PyNum distance)]"

definition check_barcodes_between_sets ::
  "pystr list \<Rightarrow> pystr list \<Rightarrow> int \<Rightarrow> pystr \<Rightarrow> pystr \<Rightarrow> pydict list" where
  "check_barcodes_between_sets set1 set2 max_distance set1_name set2_name =
     foldl (\<lambda>clashes bc1.
              foldl (\<lambda>clashes bc2.
                       let distance = hamming_distance bc1 bc2 in
                       if num_le distance max_distance
                       then clashes @ [between_record set1_name set2_name bc1 bc2 distance]
                       else clashes)
                    clashes set2)
           [] set1"

section \<open>The validator\<close>

text \<open>
  \<open>str.strip()\<close> removes the leading and trailing code points for which \<open>str.isspace\<close>
  holds; these are the code points below.
\<close>

definition isspace :: "nat \<Rightarrow> bool" where
  "isspace c \<longleftrightarrow>
     (9 \<le> c \<and> c \<le> 13) \<or> (28 \<le> c \<and> c \<le> 32) \<or> c = 133 \<or> c = 160 \<or> c = 5760 \<or>
     (8192 \<le> c \<and> c \<le> 8202) \<or> c = 8232 \<or> c = 8233 \<or> c = 8239 \<or> c = 8287 \<or> c = 12288"

definition strip :: "pystr \<Rightarrow> pystr" where
  "strip s = rev (dropWhile isspace (rev (dropWhile isspace s)))"

text \<open>
  \<open>str.upper()\<close> replaces every code point by its full uppercase mapping, a string of one
  to three code points. On ASCII that is \<open>a\<close>..\<open>z\<close> to \<open>A\<close>..\<open>Z\<close> and the identity
  elsewhere. Beyond ASCII the mapping is the Unicode table of the interpreter, which is
  the parameter \<open>uc\<close>.
\<close>

definition upper_cp :: "(nat \<Rightarrow> pystr) \<Rightarrow> nat \<Rightarrow> pystr" where
  "upper_cp uc c =
     (if c < 128 then [if 97 \<le> c \<and> c \<le> 122 then c - 32 else c] else uc c)"

definition upper :: "(nat \<Rightarrow> pystr) \<Rightarrow> pystr \<Rightarrow> pystr" where
  "upper uc s = concat (map (upper_cp uc) s)"

text \<open>
  \<^verbatim>\<open>
  def validate_barcodes(barcodes):
      valid = []
      invalid = []
      for bc in barcodes:
          bc_clean = bc.strip().upper()
          if bc_clean and all(c in 'ACGT' for c in bc_clean):
              valid.append(bc_clean)
          else:
              invalid.append(bc)
      return valid, invalid
  \<close>
\<close>

definition validate_barcodes ::
  "(nat \<Rightarrow> pystr) \<Rightarrow> pystr list \<Rightarrow> pystr list \<times> pystr list" where
  "validate_barcodes uc barcodes =
     foldl (\<lambda>(valid, invalid) bc.
              let bc_clean = upper uc (strip bc) in
              if bc_clean \<noteq> [] \<and> list_all (\<lambda>c. c \<in> set (py ''ACGT'')) bc_clean
              then (valid @ [bc_clean], invalid)
              else (valid, invalid @ [bc]))
           ([], []) barcodes"

section \<open>The functions on arbitrary Python values\<close>

text \<open>
  Python checks no types at a call: the four functions can be handed any object, and an
  operation applied to an object that does not support it raises. To state that no
  exception is raised on strings and an integer threshold, the functions are translated
  a second time, on values that are a \<open>str\<close>, an \<open>int\<close> or \<open>None\<close>, with the
  exception as a result (\<open>Inl\<close>) that ends the call. These are the operations of the
  source that can raise:
  \<^item> \<open>len(x)\<close> raises \<open>TypeError\<close> unless \<open>x\<close> is a \<open>str\<close>;
  \<^item> \<open>x.strip()\<close> raises \<open>AttributeError\<close> unless \<open>x\<close> is a \<open>str\<close>;
  \<^item> \<open>distance <= max_distance\<close>, with an \<open>int\<close> or the float infinity on the left,
    raises \<open>TypeError\<close> unless \<open>max_distance\<close> is an \<open>int\<close>.
  Building a set of such values, \<open>combinations\<close>, \<open>zip\<close> and \<open>sum\<close> on strings,
  \<open>upper\<close> on the result of \<open>strip\<close>, the dict displays and the f-strings of the
  labels do not raise. A record now holds the barcode objects themselves.
\<close>

datatype pyobj = PStr pystr | PInt int | PNone

datatype py_error = TypeError | AttributeError

datatype dynval = DynObj pyobj | DynNum pynum

type_synonym dyndict = "(pystr \<times> dynval) list"

fun py_strip :: "pyobj \<Rightarrow> py_error + pystr" where
  "py_strip (PStr s) = Inr (strip s)"
| "py_strip (PInt n) = Inl AttributeError"
| "py_strip PNone = Inl AttributeError"

fun py_le :: "pynum \<Rightarrow> pyobj \<Rightarrow> py_error + bool" where
  "py_le d (PInt t) = Inr (num_le d t)"
| "py_le d (PStr s) = Inl TypeError"
| "py_le d PNone = Inl TypeError"

text \<open>\<open>hamming_distance\<close>: \<open>len(s1)\<close> and \<open>len(s2)\<close> are the first things evaluated.\<close>

fun dyn_hamming_distance :: "pyobj \<Rightarrow> pyobj \<Rightarrow> py_error + pynum" where
  "dyn_hamming_distance (PStr s1) (PStr s2) =
     Inr (if length s1 \<noteq> length s2 then FloatInf
          else PyInt (sum_list (map (\<lambda>(c1, c2). of_bool (c1 \<noteq> c2)) (zip s1 s2))))"
| "dyn_hamming_distance s1 s2 = Inl TypeError"

text \<open>\<open>check_barcodes_within_set\<close>: the loop over the pairs stops at the first
  exception.\<close>

definition dyn_within_record :: "pyobj \<Rightarrow> pyobj \<Rightarrow> pynum \<Rightarrow> dyndict" where
  "dyn_within_record bc1 bc2 distance =
     dict_display [(py ''Barcode 1'', DynObj bc1),
                   (py ''Barcode 2'', DynObj bc2),
                   (py ''Hamming Distance'', DynNum distance)]"

fun dyn_within_loop ::
  "pyobj \<Rightarrow> (pyobj \<times> pyobj) list \<Rightarrow> dyndict list \<Rightarrow> py_error + dyndict list" where
  "dyn_within_loop max_distance [] clashes = Inr clashes"
| "dyn_within_loop max_distance ((bc1, bc2) # rest) clashes =
     (case dyn_hamming_distance bc1 bc2 of
        Inl e \<Rightarrow> Inl e
      | Inr distance \<Rightarrow>
          (case py_le distance max_distance of
             Inl e \<Rightarrow> Inl e
           | Inr clash \<Rightarrow>
               if clash
               then dyn_within_loop max_distance rest
                      (clashes @ [dyn_within_record bc1 bc2 distance])
               else dyn_within_loop max_distance rest clashes))"

definition dyn_check_barcodes_within_set ::
  "(pyobj list \<Rightarrow> pyobj list) \<Rightarrow> pyobj list \<Rightarrow> pyobj
     \<Rightarrow> py_error + (dyndict list \<times> pyobj list)" where
  "dyn_check_barcodes_within_set list_set barcodes max_distance =
     (let barcode_list = list_set barcodes in
      case dyn_within_loop max_distance (combinations2 barcode_list) [] of
        Inl e \<Rightarrow> Inl e
      | Inr clashes \<Rightarrow> Inr (clashes, barcode_list))"

text \<open>\<open>check_barcodes_between_sets\<close>: the inner loop runs over set 2 for one barcode
  of set 1, the outer loop over set 1; an exception ends both.\<close>

definition dyn_between_record ::
  "pystr \<Rightarrow> pystr \<Rightarrow> pyobj \<Rightarrow> pyobj \<Rightarrow> pynum \<Rightarrow> dyndict" where
  "dyn_between_record set1_name set2_name bc1 bc2 distance =
     dict_display [(set1_name @ py '' Barcode'', DynObj bc1),
                   (set2_name @ py '' Barcode'', DynObj bc2),
                   (py ''Hamming Distance'', DynNum distance)]"

fun dyn_between_inner ::
  "pystr \<Rightarrow> pystr \<Rightarrow> pyobj \<Rightarrow> pyobj \<Rightarrow> pyobj list \<Rightarrow> dyndict list
     \<Rightarrow> py_error + dyndict list" where
  "dyn_between_inner set1_name set2_name max_distance bc1 [] clashes = Inr clashes"
| "dyn_between_inner set1_name set2_name max_distance bc1 (bc2 # rest) clashes =
     (case dyn_hamming_distance bc1 bc2 of
        Inl e \<Rightarrow> Inl e
      | Inr distance \<Rightarrow>
          (case py_le distance max_distance of
             Inl e \<Rightarrow> Inl e
           | Inr clash \<Rightarrow>
               if clash
               then dyn_between_inner set1_name set2_name max_distance bc1 rest
                      (clashes @ [dyn_between_record set1_name set2_name bc1 bc2 distance])
               else dyn_between_inner set1_name set2_name max_distance bc1 rest clashes))"

fun dyn_between_outer ::
  "pystr \<Rightarrow> pystr \<Rightarrow> pyobj \<Rightarrow> pyobj list \<Rightarrow> pyobj list \<Rightarrow> dyndict list
     \<Rightarrow> py_error + dyndict list" where
  "dyn_between_outer set1_name set2_name max_distance [] set2 clashes = Inr clashes"
| "dyn_between_outer set1_name set2_name max_distance (bc1 # rest) set2 clashes =
     (case dyn_between_inner set1_name set2_name max_distance bc1 set2 clashes of
        Inl e \<Rightarrow> Inl e
      | Inr clashes' \<Rightarrow> dyn_between_outer set1_name set2_name max_distance rest set2 clashes')"

definition dyn_check_barcodes_between_sets ::
  "pyobj list \<Rightarrow> pyobj list \<Rightarrow> pyobj \<Rightarrow> pystr \<Rightarrow> pystr \<Rightarrow> py_error + dyndict list" where
  "dyn_check_barcodes_between_sets set1 set2 max_distance set1_name set2_name =
     dyn_between_outer set1_name set2_name max_distance set1 set2 []"

text \<open>\<open>validate_barcodes\<close>: \<open>bc.strip()\<close> is the first thing done with an element.\<close>

fun dyn_validate_loop ::
  "(nat \<Rightarrow> pystr) \<Rightarrow> pyobj list \<Rightarrow> pystr list \<times> pyobj list
     \<Rightarrow> py_error + (pystr list \<times> pyobj list)" where
  "dyn_validate_loop uc [] (valid, invalid) = Inr (valid, invalid)"
| "dyn_validate_loop uc (bc # rest) (valid, invalid) =
     (case py_strip bc of
        Inl e \<Rightarrow> Inl e
      | Inr stripped \<Rightarrow>
          (let bc_clean = upper uc stripped in
           if bc_clean \<noteq> [] \<and> list_all (\<lambda>c. c \<in> set (py ''ACGT'')) bc_clean
           then dyn_validate_loop uc rest (valid @ [bc_clean], invalid)
           else dyn_validate_loop uc rest (valid, invalid @ [bc])))"

definition dyn_validate_barcodes ::
  "(nat \<Rightarrow> pystr) \<Rightarrow> pyobj list \<Rightarrow> py_error + (pystr list \<times> pyobj list)" where
  "dyn_validate_barcodes uc barcodes = dyn_validate_loop uc barcodes ([], [])"

text \<open>A record of strings, read as a record of objects.\<close>

fun dyn_of_val :: "pyval \<Rightarrow> dynval" where
  "dyn_of_val (PyStr s) = DynObj (PStr s)"
| "dyn_of_val (PyNum n) = DynNum n"

definition dyn_of_dict :: "pydict \<Rightarrow> dyndict" where
  "dyn_of_dict d = map (\<lambda>(k, v). (k, dyn_of_val v)) d"

section \<open>Auxiliary facts\<close>

subsection \<open>Distance\<close>

lemma py_ACGT: "py ''ACGT'' = [65, 67, 71, 84]"
  by (simp add: py_def)

lemma mismatch_sum_sym:
  "length a = length b \<Longrightarrow>
   sum_list (map (\<lambda>(c1, c2). of_bool (c1 \<noteq> c2)) (zip a b)) =
   (sum_list (map (\<lambda>(c1, c2). of_bool (c1 \<noteq> c2)) (zip b a)) :: int)"
  by (induction a b rule: list_induct2) auto

lemma mismatch_sum_count:
  "length a = length b \<Longrightarrow>
   (sum_list (map (\<lambda>(c1, c2). of_bool (c1 \<noteq> c2)) (zip a b)) :: int) =
   int (card {i. i < length a \<and> a ! i \<noteq> b ! i})"
proof -
  assume len: "length a = length b"
  have "(sum_list (map (\<lambda>(c1, c2). of_bool (c1 \<noteq> c2)) (zip a b)) :: int)
        = (\<Sum>i = 0..<length a. of_bool (a ! i \<noteq> b ! i))"
    using len by (simp add: sum_list_sum_nth)
  also have "\<dots> = int (card ({0..<length a} \<inter> {i. a ! i \<noteq> b ! i}))"
    by simp
  also have "{0..<length a} \<inter> {i. a ! i \<noteq> b ! i} = {i. i < length a \<and> a ! i \<noteq> b ! i}"
    by auto
  finally show ?thesis .
qed

lemma mismatch_sum_refl:
  "(sum_list (map (\<lambda>(c1, c2). of_bool (c1 \<noteq> c2)) (zip s s)) :: int) = 0"
  by (induction s) auto

lemma hamming_distance_comm: "hamming_distance a b = hamming_distance b a"
  unfolding hamming_distance_def using mismatch_sum_sym[of a b] by auto

subsection \<open>The detectors' loops and pair enumeration\<close>

lemma foldl_append_if:
  "foldl (\<lambda>acc x. if P x then acc @ [f x] else acc) acc xs = acc @ map f (filter P xs)"
  by (induction xs arbitrary: acc) auto

lemma within_set_clashes:
  "fst (check_barcodes_within_set list_set barcodes t) =
     map (\<lambda>(bc1, bc2). within_record bc1 bc2 (hamming_distance bc1 bc2))
         (filter (\<lambda>(bc1, bc2). num_le (hamming_distance bc1 bc2) t)
                 (combinations2 (list_set barcodes)))"
proof -
  have "(\<lambda>clashes (bc1, bc2).
           let distance = hamming_distance bc1 bc2 in
           if num_le distance t then clashes @ [within_record bc1 bc2 distance] else clashes)
        = (\<lambda>acc x. if (\<lambda>(bc1, bc2). num_le (hamming_distance bc1 bc2) t) x
                    then acc @ [(\<lambda>(bc1, bc2). within_record bc1 bc2 (hamming_distance bc1 bc2)) x]
                    else acc)"
    by (simp add: fun_eq_iff Let_def split_def)
  then show ?thesis
    unfolding check_barcodes_within_set_def Let_def by (simp add: foldl_append_if)
qed

lemma within_set_unique: "snd (check_barcodes_within_set list_set barcodes t) = list_set barcodes"
  by (simp add: check_barcodes_within_set_def Let_def)

lemma between_sets_inner:
  "foldl (\<lambda>clashes bc2.
            let distance = hamming_distance bc1 bc2 in
            if num_le distance t
            then clashes @ [between_record n1 n2 bc1 bc2 distance]
            else clashes) acc set2
   = acc @ map (\<lambda>(a, b). between_record n1 n2 a b (hamming_distance a b))
             (filter (\<lambda>(a, b). num_le (hamming_distance a b) t) (map (Pair bc1) set2))"
  by (induction set2 arbitrary: acc) (auto simp: Let_def)

lemma between_sets_outer:
  "foldl (\<lambda>clashes bc1.
            foldl (\<lambda>clashes bc2.
                     let distance = hamming_distance bc1 bc2 in
                     if num_le distance t
                     then clashes @ [between_record n1 n2 bc1 bc2 distance]
                     else clashes) clashes set2) acc set1
   = acc @ map (\<lambda>(a, b). between_record n1 n2 a b (hamming_distance a b))
             (filter (\<lambda>(a, b). num_le (hamming_distance a b) t) (List.product set1 set2))"
proof (induction set1 arbitrary: acc)
  case Nil
  show ?case by simp
next
  case (Cons x xs)
  show ?case
    using Cons.IH[unfolded between_sets_inner] by (simp add: between_sets_inner)
qed

lemma between_sets_clashes:
  "check_barcodes_between_sets set1 set2 t n1 n2 =
     map (\<lambda>(a, b). between_record n1 n2 a b (hamming_distance a b))
         (filter (\<lambda>(a, b). num_le (hamming_distance a b) t) (List.product set1 set2))"
  unfolding check_barcodes_between_sets_def by (simp only: between_sets_outer append_Nil)

lemma length_filter_product:
  "length (filter P (List.product xs ys)) =
     sum_list (map (\<lambda>a. length (filter (\<lambda>b. P (a, b)) ys)) xs)"
  by (induction xs) (simp_all add: filter_map comp_def)

lemma set_combinations2: "set (combinations2 xs) \<subseteq> set xs \<times> set xs"
  by (induction xs) auto

lemma distinct_combinations2: "distinct xs \<Longrightarrow> distinct (combinations2 xs)"
proof (induction xs)
  case Nil
  show ?case by simp
next
  case (Cons x xs)
  have "set (map (Pair x) xs) \<inter> set (combinations2 xs) = {}"
    using Cons.prems set_combinations2[of xs] by auto
  moreover have "distinct (map (Pair x) xs)"
    using Cons.prems by (simp add: distinct_map inj_on_def)
  ultimately show ?case using Cons by simp
qed

lemma combinations2_irrefl: "distinct xs \<Longrightarrow> (a, b) \<in> set (combinations2 xs) \<Longrightarrow> a \<noteq> b"
  using set_combinations2 by (induction xs) auto

lemma combinations2_asym:
  "distinct xs \<Longrightarrow> (a, b) \<in> set (combinations2 xs) \<Longrightarrow> (b, a) \<notin> set (combinations2 xs)"
  using set_combinations2 by (induction xs) auto

lemma combinations2_total:
  "a \<in> set xs \<Longrightarrow> b \<in> set xs \<Longrightarrow> a \<noteq> b \<Longrightarrow>
   (a, b) \<in> set (combinations2 xs) \<or> (b, a) \<in> set (combinations2 xs)"
  by (induction xs) auto

lemma combinations2_short: "length xs \<le> 1 \<Longrightarrow> combinations2 xs = []"
  by (cases xs) auto

lemma num_le_mono: "num_le d t1 \<Longrightarrow> t1 \<le> t2 \<Longrightarrow> num_le d t2"
  by (cases d) auto

lemma length_filter_mono:
  "(\<And>x. P x \<Longrightarrow> Q x) \<Longrightarrow> length (filter P xs) \<le> length (filter Q xs)"
  by (induction xs) auto

lemma combinations2_pair_once:
  assumes "distinct xs" "a \<in> set xs" "b \<in> set xs" "a \<noteq> b"
  shows "length (filter (\<lambda>p. p = (a, b) \<or> p = (b, a)) (combinations2 xs)) = 1"
proof -
  have "length (filter (\<lambda>p. p = (a, b) \<or> p = (b, a)) (combinations2 xs)) =
        card ({p. p = (a, b) \<or> p = (b, a)} \<inter> set (combinations2 xs))"
    using distinct_combinations2[OF assms(1)] by (rule distinct_length_filter)
  also have "{p. p = (a, b) \<or> p = (b, a)} \<inter> set (combinations2 xs) = {(a, b)} \<or>
             {p. p = (a, b) \<or> p = (b, a)} \<inter> set (combinations2 xs) = {(b, a)}"
    using combinations2_total[OF assms(2,3,4)] combinations2_asym[OF assms(1), of a b]
          combinations2_asym[OF assms(1), of b a]
    by auto
  then have "card ({p. p = (a, b) \<or> p = (b, a)} \<inter> set (combinations2 xs)) = 1"
    by auto
  finally show ?thesis .
qed

lemma filter_combinations2_card:
  assumes dist: "distinct xs" and sym: "\<And>a b. P (a, b) = P (b, a)"
  shows "length (filter P (combinations2 xs)) =
         card {e. \<exists>a b. e = {a, b} \<and> a \<in> set xs \<and> b \<in> set xs \<and> a \<noteq> b \<and> P (a, b)}"
proof -
  let ?C = "combinations2 xs"
  let ?A = "{p. P p} \<inter> set ?C"
  let ?g = "\<lambda>(a, b). {a, b}"
  have "length (filter P ?C) = card ?A"
    using distinct_combinations2[OF dist] by (rule distinct_length_filter)
  also have "card ?A = card (?g ` ?A)"
  proof -
    have "inj_on ?g ?A"
    proof (rule inj_onI)
      fix p q assume p: "p \<in> ?A" and q: "q \<in> ?A" and eq: "?g p = ?g q"
      obtain a b where pab: "p = (a, b)" by (cases p)
      obtain c d where qcd: "q = (c, d)" by (cases q)
      from eq pab qcd have "(a = c \<and> b = d) \<or> (a = d \<and> b = c)"
        by (auto simp: doubleton_eq_iff)
      moreover have "\<not> (a = d \<and> b = c)"
        using combinations2_asym[OF dist, of a b] p q pab qcd by auto
      ultimately show "p = q" using pab qcd by simp
    qed
    then show ?thesis by (simp add: card_image)
  qed
  also have "?g ` ?A = {e. \<exists>a b. e = {a, b} \<and> a \<in> set xs \<and> b \<in> set xs \<and> a \<noteq> b \<and> P (a, b)}"
  proof (intro set_eqI iffI)
    fix e assume "e \<in> ?g ` ?A"
    then obtain a b where "e = {a, b}" "(a, b) \<in> set ?C" "P (a, b)" by auto
    then show "e \<in> {e. \<exists>a b. e = {a, b} \<and> a \<in> set xs \<and> b \<in> set xs \<and> a \<noteq> b \<and> P (a, b)}"
      using set_combinations2[of xs] combinations2_irrefl[OF dist, of a b] by auto
  next
    fix e assume "e \<in> {e. \<exists>a b. e = {a, b} \<and> a \<in> set xs \<and> b \<in> set xs \<and> a \<noteq> b \<and> P (a, b)}"
    then obtain a b where e: "e = {a, b}" "a \<in> set xs" "b \<in> set xs" "a \<noteq> b" "P (a, b)"
      by auto
    from combinations2_total[OF e(2,3,4)] show "e \<in> ?g ` ?A"
    proof
      assume "(a, b) \<in> set ?C"
      with e have "(a, b) \<in> ?A" "?g (a, b) = e" by auto
      then show ?thesis by (metis image_eqI)
    next
      assume "(b, a) \<in> set ?C"
      with e sym[of a b] have "(b, a) \<in> ?A" "?g (b, a) = e" by auto
      then show ?thesis by (metis image_eqI)
    qed
  qed
  finally show ?thesis .
qed

lemma filter_combinations2_order:
  assumes "distinct xs" "distinct ys" "set xs = set ys" and sym: "\<And>a b. P (a, b) = P (b, a)"
  shows "length (filter P (combinations2 xs)) = length (filter P (combinations2 ys))"
  using filter_combinations2_card[of xs P] filter_combinations2_card[of ys P] assms
  by simp

lemma two_element_orders:
  assumes "distinct ul" "set ul = {x, y}" "x \<noteq> y"
  shows "ul = [x, y] \<or> ul = [y, x]"
proof -
  have "length ul = 2"
    using assms distinct_card[of ul] by simp
  then obtain p q where ul: "ul = [p, q]"
    by (cases ul; cases "tl ul") auto
  with assms show ?thesis by (auto simp: doubleton_eq_iff)
qed

subsection \<open>Clash records\<close>

lemma within_record_items:
  "within_record bc1 bc2 d =
     [(py ''Barcode 1'', PyStr bc1), (py ''Barcode 2'', PyStr bc2),
      (py ''Hamming Distance'', PyNum d)]"
  by (simp add: within_record_def dict_display_def py_def)

lemma within_record_inj:
  "within_record a b d = within_record a' b' d' \<longleftrightarrow> a = a' \<and> b = b' \<and> d = d'"
  by (simp add: within_record_items)

lemma barcode_key_not_distance: "n @ py '' Barcode'' \<noteq> py ''Hamming Distance''"
proof
  assume "n @ py '' Barcode'' = py ''Hamming Distance''"
  then have "rev (n @ py '' Barcode'') = rev (py ''Hamming Distance'')" by simp
  then show False by (simp add: py_def)
qed

lemma between_record_items:
  "between_record n1 n2 bc1 bc2 d =
     (if n1 = n2
      then [(n2 @ py '' Barcode'', PyStr bc2), (py ''Hamming Distance'', PyNum d)]
      else [(n1 @ py '' Barcode'', PyStr bc1), (n2 @ py '' Barcode'', PyStr bc2),
            (py ''Hamming Distance'', PyNum d)])"
  using barcode_key_not_distance[of n1] barcode_key_not_distance[of n2]
  by (simp add: between_record_def dict_display_def)

subsection \<open>The validator's loop, trimming and uppercasing\<close>

lemma foldl_route:
  "foldl (\<lambda>(valid, invalid) bc.
            if P bc then (valid @ [f bc], invalid) else (valid, invalid @ [bc]))
         (v0, i0) bcs
   = (v0 @ map f (filter P bcs), i0 @ filter (\<lambda>bc. \<not> P bc) bcs)"
  by (induction bcs arbitrary: v0 i0) auto

lemma validate_barcodes_eq:
  "validate_barcodes uc barcodes =
     (map (\<lambda>bc. upper uc (strip bc))
          (filter (\<lambda>bc. upper uc (strip bc) \<noteq> [] \<and> list_all (\<lambda>c. c \<in> set (py ''ACGT'')) (upper uc (strip bc))) barcodes),
      filter (\<lambda>bc. \<not> (upper uc (strip bc) \<noteq> [] \<and> list_all (\<lambda>c. c \<in> set (py ''ACGT'')) (upper uc (strip bc)))) barcodes)"
  unfolding validate_barcodes_def Let_def
  using foldl_route[of "\<lambda>bc. upper uc (strip bc) \<noteq> [] \<and> list_all (\<lambda>c. c \<in> set (py ''ACGT'')) (upper uc (strip bc))"
        "\<lambda>bc. upper uc (strip bc)" "[]" "[]" barcodes]
  by simp

lemma upper_nonempty: "(\<And>c. uc c \<noteq> []) \<Longrightarrow> upper uc s \<noteq> [] \<longleftrightarrow> s \<noteq> []"
  by (cases s) (auto simp: upper_def upper_cp_def)

lemma upper_acgt: "list_all (\<lambda>c. c \<in> set (py ''ACGT'')) s \<Longrightarrow> upper uc s = s"
  by (induction s) (auto simp: upper_def upper_cp_def py_ACGT)

lemma dropWhile_hd: "xs \<noteq> [] \<Longrightarrow> \<not> P (hd xs) \<Longrightarrow> dropWhile P xs = xs"
  by (cases xs) auto

lemma strip_no_space:
  assumes "s \<noteq> []" "\<not> isspace (hd s)" "\<not> isspace (last s)"
  shows "strip s = s"
proof -
  have 1: "dropWhile isspace s = s" using assms by (simp add: dropWhile_hd)
  have "rev s \<noteq> []" "\<not> isspace (hd (rev s))" using assms by (auto simp: hd_rev)
  then have 2: "dropWhile isspace (rev s) = rev s" by (rule dropWhile_hd)
  show ?thesis by (simp add: strip_def 1 2)
qed

lemma strip_acgt:
  assumes "list_all (\<lambda>c. c \<in> set (py ''ACGT'')) s"
  shows "strip s = s"
proof (cases "s = []")
  case True
  then show ?thesis by (simp add: strip_def)
next
  case False
  then have "hd s \<in> set s" "last s \<in> set s" by auto
  with assms have "hd s \<in> set (py ''ACGT'')" "last s \<in> set (py ''ACGT'')"
    by (auto simp: list_all_iff)
  then have "\<not> isspace (hd s)" "\<not> isspace (last s)"
    by (auto simp: py_ACGT isspace_def)
  with False show ?thesis by (rule strip_no_space)
qed

lemma validate_valid_idem:
  "validate_barcodes uc (fst (validate_barcodes uc barcodes)) = (fst (validate_barcodes uc barcodes), [])"
proof -
  let ?ok = "\<lambda>s. s \<noteq> [] \<and> list_all (\<lambda>c. c \<in> set (py ''ACGT'')) s"
  let ?v = "fst (validate_barcodes uc barcodes)"
  have v: "\<forall>s \<in> set ?v. ?ok s"
    by (auto simp: validate_barcodes_eq)
  then have norm: "\<forall>s \<in> set ?v. upper uc (strip s) = s"
    by (simp add: strip_acgt upper_acgt)
  have "filter (\<lambda>bc. ?ok (upper uc (strip bc))) ?v = ?v"
    using v norm by (simp add: filter_id_conv)
  moreover have "filter (\<lambda>bc. \<not> ?ok (upper uc (strip bc))) ?v = []"
    using v norm by (simp add: filter_empty_conv)
  moreover have "map (\<lambda>bc. upper uc (strip bc)) ?v = ?v"
    using norm by (simp add: map_idI)
  ultimately show ?thesis
    by (simp add: validate_barcodes_eq[of uc ?v])
qed

lemma upper_cp_ascii_examples:
  "upper_cp uc 97 = [65]" "upper_cp uc 99 = [67]" "upper_cp uc 103 = [71]"
  "upper_cp uc 116 = [84]" "upper_cp uc 65 = [65]" "upper_cp uc 67 = [67]"
  "upper_cp uc 71 = [71]" "upper_cp uc 84 = [84]" "upper_cp uc 88 = [88]"
  by (simp_all add: upper_cp_def)

subsection \<open>The functions on arbitrary Python values\<close>

lemma dyn_hamming_distance_str:
  "dyn_hamming_distance (PStr s1) (PStr s2) = Inr (hamming_distance s1 s2)"
  by (simp add: hamming_distance_def)

lemma dyn_within_record_str:
  "dyn_within_record (PStr a) (PStr b) d = dyn_of_dict (within_record a b d)"
  by (simp add: dyn_within_record_def within_record_items dyn_of_dict_def dict_display_def py_def)

lemma dyn_between_record_str:
  "dyn_between_record n1 n2 (PStr a) (PStr b) d = dyn_of_dict (between_record n1 n2 a b d)"
  using barcode_key_not_distance[of n1] barcode_key_not_distance[of n2]
  by (simp add: dyn_between_record_def between_record_items dyn_of_dict_def dict_display_def)

lemma combinations2_map: "combinations2 (map f xs) = map (\<lambda>(a, b). (f a, f b)) (combinations2 xs)"
  by (induction xs) simp_all

lemma dyn_within_loop_str:
  "dyn_within_loop (PInt t) (map (\<lambda>(a, b). (PStr a, PStr b)) pairs) clashes =
     Inr (clashes @ map dyn_of_dict
            (map (\<lambda>(bc1, bc2). within_record bc1 bc2 (hamming_distance bc1 bc2))
                 (filter (\<lambda>(bc1, bc2). num_le (hamming_distance bc1 bc2) t) pairs)))"
  by (induction pairs arbitrary: clashes)
     (auto simp: dyn_hamming_distance_str dyn_within_record_str simp del: dyn_hamming_distance.simps)

lemma dyn_between_inner_str:
  "dyn_between_inner n1 n2 (PInt t) (PStr a) (map PStr set2) clashes =
     Inr (clashes @ map dyn_of_dict
            (map (\<lambda>(bc1, bc2). between_record n1 n2 bc1 bc2 (hamming_distance bc1 bc2))
                 (filter (\<lambda>(bc1, bc2). num_le (hamming_distance bc1 bc2) t)
                         (map (Pair a) set2))))"
  by (induction set2 arbitrary: clashes)
     (auto simp: dyn_hamming_distance_str dyn_between_record_str simp del: dyn_hamming_distance.simps)

lemma dyn_between_outer_str:
  "dyn_between_outer n1 n2 (PInt t) (map PStr set1) (map PStr set2) clashes =
     Inr (clashes @ map dyn_of_dict
            (map (\<lambda>(bc1, bc2). between_record n1 n2 bc1 bc2 (hamming_distance bc1 bc2))
                 (filter (\<lambda>(bc1, bc2). num_le (hamming_distance bc1 bc2) t)
                         (List.product set1 set2))))"
  by (induction set1 arbitrary: clashes) (simp_all add: dyn_between_inner_str)

lemma dyn_validate_loop_str:
  "dyn_validate_loop uc (map PStr bcs) (valid, invalid) =
     Inr (valid @ map (\<lambda>bc. upper uc (strip bc))
                    (filter (\<lambda>bc. upper uc (strip bc) \<noteq> [] \<and>
                                   list_all (\<lambda>c. c \<in> set (py ''ACGT'')) (upper uc (strip bc))) bcs),
          invalid @ map PStr
                    (filter (\<lambda>bc. \<not> (upper uc (strip bc) \<noteq> [] \<and>
                                   list_all (\<lambda>c. c \<in> set (py ''ACGT'')) (upper uc (strip bc)))) bcs))"
  by (induction bcs arbitrary: valid invalid) (simp_all add: Let_def)

lemma strings_listing:
  assumes "set ys \<subseteq> set (map PStr xs)"
  shows "\<exists>ul. ys = map PStr ul"
  using assms
proof (induction ys)
  case Nil
  show ?case by simp
next
  case (Cons y ys)
  then obtain ul where "ys = map PStr ul" by auto
  moreover from Cons.prems obtain s where "y = PStr s" by auto
  ultimately have "y # ys = map PStr (s # ul)" by simp
  then show ?case by (rule exI[of _ "s # ul"])
qed

text \<open>Outside strings and an integer threshold the functions do raise: an element
  that is not a string, or a threshold that is not an integer.\<close>

lemma raises_outside_domain:
  "dyn_validate_barcodes uc [PStr bc, PNone] = Inl AttributeError"
  "dyn_validate_barcodes uc [PInt n] = Inl AttributeError"
  "dyn_hamming_distance (PStr s) (PInt n) = Inl TypeError"
  "dyn_hamming_distance PNone (PStr s) = Inl TypeError"
  "dyn_check_barcodes_within_set remdups [PStr (py ''AC''), PStr (py ''AG'')] PNone
     = Inl TypeError"
  "dyn_check_barcodes_within_set remdups [PStr (py ''AC''), PInt 7] (PInt 1) = Inl TypeError"
  "dyn_check_barcodes_between_sets [PStr (py ''AC'')] [PNone] (PInt 1) n1 n2 = Inl TypeError"
  "dyn_check_barcodes_between_sets [PStr (py ''AC'')] [PStr (py ''AG'')] (PStr (py ''1'')) n1 n2
     = Inl TypeError"
  by (simp_all add: dyn_validate_barcodes_def dyn_check_barcodes_within_set_def
        dyn_check_barcodes_between_sets_def Let_def py_def)

section \<open>Claims about the distance function\<close>

text \<open>
  C4. For two strings of equal length, \<open>hamming_distance\<close> returns the number of index
  positions at which their characters differ. In particular the distance of a string to
  itself is 0, and the distance of "ACGT" and "ACGG" is 1.
\<close>

theorem hamming_distance_counts_mismatches:
  "(length s1 = length s2 \<longrightarrow>
      hamming_distance s1 s2 = PyInt (int (card {i. i < length s1 \<and> s1 ! i \<noteq> s2 ! i})))
   \<and> hamming_distance s s = PyInt 0
   \<and> hamming_distance (py ''ACGT'') (py ''ACGG'') = PyInt 1"
proof (intro conjI impI)
  assume "length s1 = length s2"
  then show "hamming_distance s1 s2 = PyInt (int (card {i. i < length s1 \<and> s1 ! i \<noteq> s2 ! i}))"
    by (simp add: hamming_distance_def mismatch_sum_count)
next
  show "hamming_distance s s = PyInt 0"
    by (simp add: hamming_distance_def mismatch_sum_refl)
next
  show "hamming_distance (py ''ACGT'') (py ''ACGG'') = PyInt 1"
    by (simp add: hamming_distance_def py_def)
qed

text \<open>The theorem at "GATTACA" and "GACTATA": equal length, two differing positions.\<close>

theorem hamming_distance_counts_mismatches_witness:
  "length (py ''GATTACA'') = length (py ''GACTATA'')
   \<and> card {i. i < length (py ''GATTACA'') \<and> py ''GATTACA'' ! i \<noteq> py ''GACTATA'' ! i} = 2"
proof -
  have len: "length (py ''GATTACA'') = length (py ''GACTATA'')"
    by (simp add: py_def)
  have "hamming_distance (py ''GATTACA'') (py ''GACTATA'') = PyInt 2"
    by (simp add: hamming_distance_def py_def)
  with len hamming_distance_counts_mismatches[of "py ''GATTACA''" "py ''GACTATA''"]
  show ?thesis by simp
qed

text \<open>
  C8. \<open>hamming_distance\<close> is symmetric: for every two strings \<open>a\<close> and \<open>b\<close>, of equal
  or of differing length, \<open>hamming_distance a b\<close> and \<open>hamming_distance b a\<close> are the
  same value.
\<close>

theorem hamming_distance_symmetric:
  "hamming_distance a b = hamming_distance b a"
  by (rule hamming_distance_comm)

section \<open>Claims about the validator\<close>

text \<open>
  C7. \<open>validate_barcodes\<close> is idempotent on its own valid output: applied to the valid
  list of a previous application, it returns that list unchanged together with an empty
  invalid list. This holds whatever the uppercase mapping beyond ASCII is.
\<close>

theorem validate_barcodes_idempotent_on_valid:
  "validate_barcodes uc (fst (validate_barcodes uc barcodes)) =
     (fst (validate_barcodes uc barcodes), [])"
  by (rule validate_valid_idem)

section \<open>Claims about the cross-set detector\<close>

text \<open>
  C2. For every two barcode lists, threshold and pair of labels,
  \<open>check_barcodes_between_sets\<close> returns one clash record for every ordered pair
  \<open>(a, b)\<close> with \<open>a\<close> drawn from set 1 and \<open>b\<close> from set 2 whose distance is at most the
  threshold, and no other record. \<open>List.product\<close> pairs positions, so a barcode that
  occurs twice in a list is paired twice: neither list is deduplicated, and the number of
  records is the sum, over the entries of set 1, of the number of entries of set 2
  within the threshold. Every record stems from one barcode of set 1 and one of set 2,
  never from two barcodes of the same input list; with distinct labels it holds exactly
  these two barcodes and their distance.
\<close>

theorem between_sets_cartesian:
  "check_barcodes_between_sets set1 set2 t n1 n2 =
     map (\<lambda>(a, b). between_record n1 n2 a b (hamming_distance a b))
         (filter (\<lambda>(a, b). num_le (hamming_distance a b) t) (List.product set1 set2))
   \<and> length (check_barcodes_between_sets set1 set2 t n1 n2) =
       sum_list (map (\<lambda>a. length (filter (\<lambda>b. num_le (hamming_distance a b) t) set2)) set1)
   \<and> (\<forall>r \<in> set (check_barcodes_between_sets set1 set2 t n1 n2).
         \<exists>a \<in> set set1. \<exists>b \<in> set set2.
           num_le (hamming_distance a b) t \<and>
           r = between_record n1 n2 a b (hamming_distance a b))
   \<and> (n1 \<noteq> n2 \<longrightarrow>
        (\<forall>r \<in> set (check_barcodes_between_sets set1 set2 t n1 n2).
           \<exists>a \<in> set set1. \<exists>b \<in> set set2.
             r = [(n1 @ py '' Barcode'', PyStr a), (n2 @ py '' Barcode'', PyStr b),
                  (py ''Hamming Distance'', PyNum (hamming_distance a b))]))"
proof (intro conjI)
  show eq: "check_barcodes_between_sets set1 set2 t n1 n2 =
     map (\<lambda>(a, b). between_record n1 n2 a b (hamming_distance a b))
         (filter (\<lambda>(a, b). num_le (hamming_distance a b) t) (List.product set1 set2))"
    by (rule between_sets_clashes)
  show "length (check_barcodes_between_sets set1 set2 t n1 n2) =
       sum_list (map (\<lambda>a. length (filter (\<lambda>b. num_le (hamming_distance a b) t) set2)) set1)"
    by (simp add: eq length_filter_product)
  show mem: "\<forall>r \<in> set (check_barcodes_between_sets set1 set2 t n1 n2).
         \<exists>a \<in> set set1. \<exists>b \<in> set set2.
           num_le (hamming_distance a b) t \<and>
           r = between_record n1 n2 a b (hamming_distance a b)"
    unfolding eq by auto
  show "n1 \<noteq> n2 \<longrightarrow>
        (\<forall>r \<in> set (check_barcodes_between_sets set1 set2 t n1 n2).
           \<exists>a \<in> set set1. \<exists>b \<in> set set2.
             r = [(n1 @ py '' Barcode'', PyStr a), (n2 @ py '' Barcode'', PyStr b),
                  (py ''Hamming Distance'', PyNum (hamming_distance a b))])"
    using mem by (auto simp: between_record_items)
qed

text \<open>The theorem at set 1 = ["AAAA"], set 2 = ["AAAA", "TTTT"], threshold 0 and the
  default labels: one record, for the pair at distance 0.\<close>

theorem between_sets_cartesian_witness:
  "py ''Set 1'' \<noteq> py ''Set 2''
   \<and> check_barcodes_between_sets [py ''AAAA''] [py ''AAAA'', py ''TTTT''] 0
         (py ''Set 1'') (py ''Set 2'')
       = [[(py ''Set 1 Barcode'', PyStr (py ''AAAA'')),
           (py ''Set 2 Barcode'', PyStr (py ''AAAA'')),
           (py ''Hamming Distance'', PyNum (PyInt 0))]]"
proof -
  have names: "py ''Set 1'' \<noteq> py ''Set 2''"
    by (simp add: py_def)
  have d0: "hamming_distance (py ''AAAA'') (py ''AAAA'') = PyInt 0"
    and d4: "hamming_distance (py ''AAAA'') (py ''TTTT'') = PyInt 4"
    by (simp_all add: hamming_distance_def py_def)
  have rec: "between_record (py ''Set 1'') (py ''Set 2'') (py ''AAAA'') (py ''AAAA'') (PyInt 0)
        = [(py ''Set 1 Barcode'', PyStr (py ''AAAA'')),
           (py ''Set 2 Barcode'', PyStr (py ''AAAA'')),
           (py ''Hamming Distance'', PyNum (PyInt 0))]"
    by (simp add: between_record_def dict_display_def py_def)
  have "check_barcodes_between_sets [py ''AAAA''] [py ''AAAA'', py ''TTTT''] 0
          (py ''Set 1'') (py ''Set 2'')
        = map (\<lambda>(a, b). between_record (py ''Set 1'') (py ''Set 2'') a b (hamming_distance a b))
            (filter (\<lambda>(a, b). num_le (hamming_distance a b) 0)
               (List.product [py ''AAAA''] [py ''AAAA'', py ''TTTT'']))"
    using between_sets_cartesian[of "[py ''AAAA'']" "[py ''AAAA'', py ''TTTT'']" 0
            "py ''Set 1''" "py ''Set 2''"]
    by (rule conjunct1)
  also have "\<dots> = [[(py ''Set 1 Barcode'', PyStr (py ''AAAA'')),
           (py ''Set 2 Barcode'', PyStr (py ''AAAA'')),
           (py ''Hamming Distance'', PyNum (PyInt 0))]]"
    by (simp add: d0 d4 rec)
  finally show ?thesis
    using names by (rule_tac conjI)
qed

text \<open>
  C10. A record of \<open>check_barcodes_between_sets\<close> has three fields when the two
  labels differ and two when they are equal. If the labels are equal, both barcode
  entries use the same key, the label followed by " Barcode": every emitted record
  then has two fields, under that key it holds the barcode of set 2, which has replaced
  the barcode of set 1, and the record is the same whatever the barcode of set 1 was.
\<close>

theorem between_sets_equal_labels:
  "length (between_record n1 n2 a b d) = (if n1 = n2 then 2 else 3)
   \<and> (n1 = n2 \<longrightarrow>
        check_barcodes_between_sets set1 set2 t n1 n2 =
          map (\<lambda>(a, b). [(n2 @ py '' Barcode'', PyStr b),
                          (py ''Hamming Distance'', PyNum (hamming_distance a b))])
              (filter (\<lambda>(a, b). num_le (hamming_distance a b) t) (List.product set1 set2))
        \<and> (\<forall>r \<in> set (check_barcodes_between_sets set1 set2 t n1 n2).
              length r = 2 \<and>
              (\<exists>b \<in> set set2. map_of r (n1 @ py '' Barcode'') = Some (PyStr b)))
        \<and> between_record n1 n2 a b d = between_record n1 n2 a' b d)"
proof (intro conjI impI)
  show "length (between_record n1 n2 a b d) = (if n1 = n2 then 2 else 3)"
    by (simp add: between_record_items)
next
  assume same: "n1 = n2"
  have fn: "(\<lambda>(a, b). between_record n1 n2 a b (hamming_distance a b)) =
            (\<lambda>(a, b). [(n2 @ py '' Barcode'', PyStr b),
                        (py ''Hamming Distance'', PyNum (hamming_distance a b))])"
    using same by (simp add: between_record_items)
  show eq: "check_barcodes_between_sets set1 set2 t n1 n2 =
       map (\<lambda>(a, b). [(n2 @ py '' Barcode'', PyStr b),
                       (py ''Hamming Distance'', PyNum (hamming_distance a b))])
           (filter (\<lambda>(a, b). num_le (hamming_distance a b) t) (List.product set1 set2))"
    by (simp only: between_sets_clashes fn)
  show "\<forall>r \<in> set (check_barcodes_between_sets set1 set2 t n1 n2).
           length r = 2 \<and>
           (\<exists>b \<in> set set2. map_of r (n1 @ py '' Barcode'') = Some (PyStr b))"
    unfolding eq using same by auto
  show "between_record n1 n2 a b d = between_record n1 n2 a' b d"
    using same by (simp add: between_record_items)
qed

text \<open>The theorem at set 1 = ["AAAA"], set 2 = ["AAAT", "TTTT"], threshold 1 and the
  label "Pool" twice: the one record names "AAAT" only.\<close>

theorem between_sets_equal_labels_witness:
  "check_barcodes_between_sets [py ''AAAA''] [py ''AAAT'', py ''TTTT''] 1
         (py ''Pool'') (py ''Pool'')
       = [[(py ''Pool Barcode'', PyStr (py ''AAAT'')),
           (py ''Hamming Distance'', PyNum (PyInt 1))]]"
proof -
  have d1: "hamming_distance (py ''AAAA'') (py ''AAAT'') = PyInt 1"
    and d4: "hamming_distance (py ''AAAA'') (py ''TTTT'') = PyInt 4"
    by (simp_all add: hamming_distance_def py_def)
  have key: "py ''Pool'' @ py '' Barcode'' = py ''Pool Barcode''"
    by (simp add: py_def)
  have "check_barcodes_between_sets [py ''AAAA''] [py ''AAAT'', py ''TTTT''] 1
          (py ''Pool'') (py ''Pool'')
        = map (\<lambda>(a, b). [(py ''Pool'' @ py '' Barcode'', PyStr b),
                          (py ''Hamming Distance'', PyNum (hamming_distance a b))])
            (filter (\<lambda>(a, b). num_le (hamming_distance a b) 1)
               (List.product [py ''AAAA''] [py ''AAAT'', py ''TTTT'']))"
    using between_sets_equal_labels[of "py ''Pool''" "py ''Pool''" _ _ _ "[py ''AAAA'']"
            "[py ''AAAT'', py ''TTTT'']" 1, THEN conjunct2, THEN mp, OF refl]
    by (rule conjunct1)
  also have "\<dots> = [[(py ''Pool Barcode'', PyStr (py ''AAAT'')),
           (py ''Hamming Distance'', PyNum (PyInt 1))]]"
    by (simp add: d1 d4 key)
  finally show ?thesis .
qed

section \<open>Claims about pairs of differing length\<close>

text \<open>
  C3. For two strings of different lengths and every integer threshold, the result of
  \<open>hamming_distance\<close> is never at most the threshold. Consequently both detectors emit
  records only for pairs of equal length: their outputs are unchanged when the pairs
  are restricted to those of equal length.
\<close>

theorem length_mismatch_never_clashes:
  "(length a \<noteq> length b \<longrightarrow> \<not> num_le (hamming_distance a b) t)
   \<and> fst (check_barcodes_within_set list_set barcodes t) =
       map (\<lambda>(bc1, bc2). within_record bc1 bc2 (hamming_distance bc1 bc2))
           (filter (\<lambda>(bc1, bc2). length bc1 = length bc2 \<and> num_le (hamming_distance bc1 bc2) t)
                   (combinations2 (list_set barcodes)))
   \<and> check_barcodes_between_sets set1 set2 t n1 n2 =
       map (\<lambda>(bc1, bc2). between_record n1 n2 bc1 bc2 (hamming_distance bc1 bc2))
           (filter (\<lambda>(bc1, bc2). length bc1 = length bc2 \<and> num_le (hamming_distance bc1 bc2) t)
                   (List.product set1 set2))"
proof -
  have inf: "\<not> num_le (hamming_distance x y) t" if "length x \<noteq> length y" for x y
    using that by (simp add: hamming_distance_def)
  then have flt: "(\<lambda>(bc1, bc2). num_le (hamming_distance bc1 bc2) t) =
             (\<lambda>(bc1, bc2). length bc1 = length bc2 \<and> num_le (hamming_distance bc1 bc2) t)"
    by (auto simp: fun_eq_iff)
  show ?thesis
    using inf[of a b] by (simp only: within_set_clashes between_sets_clashes flt) simp
qed

text \<open>The theorem at "AC" and "ACG" with threshold 1000.\<close>

theorem length_mismatch_never_clashes_witness:
  "length (py ''AC'') \<noteq> length (py ''ACG'')
   \<and> \<not> num_le (hamming_distance (py ''AC'') (py ''ACG'')) 1000
   \<and> check_barcodes_between_sets [py ''AC''] [py ''ACG''] 1000 (py ''Set 1'') (py ''Set 2'') = []"
proof -
  note inst = length_mismatch_never_clashes[of "py ''AC''" "py ''ACG''" 1000 remdups "[]"
                "[py ''AC'']" "[py ''ACG'']" "py ''Set 1''" "py ''Set 2''"]
  have len: "length (py ''AC'') \<noteq> length (py ''ACG'')"
    by (simp add: py_def)
  have "length (py ''AC'') \<noteq> length (py ''ACG'') \<longrightarrow>
        \<not> num_le (hamming_distance (py ''AC'') (py ''ACG'')) 1000"
    using inst by (rule conjunct1)
  with len have nle: "\<not> num_le (hamming_distance (py ''AC'') (py ''ACG'')) 1000"
    by blast
  have "check_barcodes_between_sets [py ''AC''] [py ''ACG''] 1000 (py ''Set 1'') (py ''Set 2'') =
       map (\<lambda>(bc1, bc2). between_record (py ''Set 1'') (py ''Set 2'') bc1 bc2
                            (hamming_distance bc1 bc2))
           (filter (\<lambda>(bc1, bc2). length bc1 = length bc2 \<and> num_le (hamming_distance bc1 bc2) 1000)
                   (List.product [py ''AC''] [py ''ACG'']))"
    using inst by (rule conjunct2[THEN conjunct2])
  also have "\<dots> = []"
    using len by simp
  finally show ?thesis
    using len nle by simp
qed

section \<open>Claims about the within-set detector\<close>

text \<open>
  C1. For every list of barcodes and every threshold, \<open>check_barcodes_within_set\<close>
  returns a pair \<open>(clashes, unique_list)\<close>. The unique list holds each distinct input
  barcode exactly once, in the order the set yields them. For every unordered pair of
  distinct barcodes of the unique list whose distance is at most the threshold,
  \<open>clashes\<close> holds exactly one record, with the two barcodes (in one of the two orders)
  and their distance; it holds no other record. An input with at most one distinct barcode
  gives no clash, and the input ["ACGT", "ACGA"] with threshold 1 gives exactly one
  record, with distance 1. The hypothesis is what Python guarantees of \<open>list(set(\<cdot>))\<close>.
\<close>

theorem within_set_pairs:
  assumes ls: "\<And>xs. distinct (list_set xs) \<and> set (list_set xs) = set xs"
  shows
    "distinct (snd (check_barcodes_within_set list_set barcodes t))
     \<and> set (snd (check_barcodes_within_set list_set barcodes t)) = set barcodes
     \<and> (\<forall>a \<in> set (snd (check_barcodes_within_set list_set barcodes t)).
         \<forall>b \<in> set (snd (check_barcodes_within_set list_set barcodes t)).
           a \<noteq> b \<and> num_le (hamming_distance a b) t \<longrightarrow>
           length (filter (\<lambda>r. r = within_record a b (hamming_distance a b) \<or>
                               r = within_record b a (hamming_distance b a))
                          (fst (check_barcodes_within_set list_set barcodes t))) = 1)
     \<and> (\<forall>r \<in> set (fst (check_barcodes_within_set list_set barcodes t)).
         \<exists>a \<in> set (snd (check_barcodes_within_set list_set barcodes t)).
         \<exists>b \<in> set (snd (check_barcodes_within_set list_set barcodes t)).
           a \<noteq> b \<and> num_le (hamming_distance a b) t \<and>
           r = [(py ''Barcode 1'', PyStr a), (py ''Barcode 2'', PyStr b),
                (py ''Hamming Distance'', PyNum (hamming_distance a b))])
     \<and> (card (set barcodes) \<le> 1 \<longrightarrow> fst (check_barcodes_within_set list_set barcodes t) = [])
     \<and> (fst (check_barcodes_within_set list_set [py ''ACGT'', py ''ACGA''] 1)
           = [[(py ''Barcode 1'', PyStr (py ''ACGT'')), (py ''Barcode 2'', PyStr (py ''ACGA'')),
               (py ''Hamming Distance'', PyNum (PyInt 1))]]
         \<or> fst (check_barcodes_within_set list_set [py ''ACGT'', py ''ACGA''] 1)
           = [[(py ''Barcode 1'', PyStr (py ''ACGA'')), (py ''Barcode 2'', PyStr (py ''ACGT'')),
               (py ''Hamming Distance'', PyNum (PyInt 1))]])"
proof -
  let ?ul = "list_set barcodes"
  let ?C = "combinations2 ?ul"
  let ?P = "\<lambda>(bc1, bc2). num_le (hamming_distance bc1 bc2) t"
  let ?f = "\<lambda>(bc1, bc2). within_record bc1 bc2 (hamming_distance bc1 bc2)"
  let ?clashes = "fst (check_barcodes_within_set list_set barcodes t)"
  have dist: "distinct ?ul" and sets: "set ?ul = set barcodes"
    using ls[of barcodes] by auto
  have cl: "?clashes = map ?f (filter ?P ?C)"
    by (rule within_set_clashes)
  have once: "length (filter (\<lambda>r. r = within_record a b (hamming_distance a b) \<or>
                               r = within_record b a (hamming_distance b a)) ?clashes) = 1"
    if ab: "a \<in> set ?ul" "b \<in> set ?ul" "a \<noteq> b" "num_le (hamming_distance a b) t" for a b
  proof -
    have Pba: "num_le (hamming_distance b a) t"
      using ab(4) by (simp add: hamming_distance_comm[of b a])
    have "filter (\<lambda>r. r = within_record a b (hamming_distance a b) \<or>
                       r = within_record b a (hamming_distance b a)) ?clashes
          = map ?f (filter (\<lambda>p. p = (a, b) \<or> p = (b, a)) (filter ?P ?C))"
      unfolding cl filter_map
      by (rule arg_cong[where f = "map ?f"], rule filter_cong)
         (auto simp: within_record_inj)
    also have "filter (\<lambda>p. p = (a, b) \<or> p = (b, a)) (filter ?P ?C)
               = filter (\<lambda>p. p = (a, b) \<or> p = (b, a)) ?C"
      unfolding filter_filter using ab(4) Pba by (intro filter_cong) auto
    finally show ?thesis
      using combinations2_pair_once[OF dist ab(1,2,3)] by simp
  qed
  have others: "\<exists>a \<in> set ?ul. \<exists>b \<in> set ?ul.
           a \<noteq> b \<and> num_le (hamming_distance a b) t \<and>
           r = [(py ''Barcode 1'', PyStr a), (py ''Barcode 2'', PyStr b),
                (py ''Hamming Distance'', PyNum (hamming_distance a b))]"
    if "r \<in> set ?clashes" for r
  proof -
    from that obtain a b where "(a, b) \<in> set ?C" "num_le (hamming_distance a b) t"
      "r = within_record a b (hamming_distance a b)"
      unfolding cl by auto
    then show ?thesis
      using set_combinations2[of ?ul] combinations2_irrefl[OF dist, of a b]
      by (auto simp: within_record_items)
  qed
  have few: "?clashes = []" if "card (set barcodes) \<le> 1"
  proof -
    have "length ?ul \<le> 1"
      using that distinct_card[OF dist] sets by simp
    then show ?thesis by (simp add: cl combinations2_short)
  qed
  have example: "fst (check_barcodes_within_set list_set [py ''ACGT'', py ''ACGA''] 1)
           = [[(py ''Barcode 1'', PyStr (py ''ACGT'')), (py ''Barcode 2'', PyStr (py ''ACGA'')),
               (py ''Hamming Distance'', PyNum (PyInt 1))]]
         \<or> fst (check_barcodes_within_set list_set [py ''ACGT'', py ''ACGA''] 1)
           = [[(py ''Barcode 1'', PyStr (py ''ACGA'')), (py ''Barcode 2'', PyStr (py ''ACGT'')),
               (py ''Hamming Distance'', PyNum (PyInt 1))]]"
  proof -
    let ?x = "py ''ACGT''" and ?y = "py ''ACGA''"
    have ne: "?x \<noteq> ?y" by (simp add: py_def)
    have d: "hamming_distance ?x ?y = PyInt 1" "hamming_distance ?y ?x = PyInt 1"
      by (simp_all add: hamming_distance_def py_def)
    have "distinct (list_set [?x, ?y])" "set (list_set [?x, ?y]) = {?x, ?y}"
      using ls[of "[?x, ?y]"] by auto
    then have "list_set [?x, ?y] = [?x, ?y] \<or> list_set [?x, ?y] = [?y, ?x]"
      using ne by (rule two_element_orders)
    then show ?thesis
      by (auto simp: within_set_clashes d within_record_items)
  qed
  show ?thesis
    using dist sets once others few example
    by (simp only: within_set_unique) blast
qed

text \<open>The theorem with \<open>remdups\<close> as the set order, at the input
  ["ACGT", "ACGA", "ACGT", "TTTT"] and threshold 1.\<close>

theorem within_set_pairs_witness:
  "distinct (snd (check_barcodes_within_set remdups
                    [py ''ACGT'', py ''ACGA'', py ''ACGT'', py ''TTTT''] 1))
   \<and> set (snd (check_barcodes_within_set remdups
                    [py ''ACGT'', py ''ACGA'', py ''ACGT'', py ''TTTT''] 1))
       = {py ''ACGT'', py ''ACGA'', py ''TTTT''}
   \<and> length (filter (\<lambda>r. r = within_record (py ''ACGT'') (py ''ACGA'') (PyInt 1) \<or>
                          r = within_record (py ''ACGA'') (py ''ACGT'') (PyInt 1))
                (fst (check_barcodes_within_set remdups
                        [py ''ACGT'', py ''ACGA'', py ''ACGT'', py ''TTTT''] 1))) = 1"
proof -
  let ?x = "py ''ACGT''" and ?y = "py ''ACGA''"
  let ?bs = "[py ''ACGT'', py ''ACGA'', py ''ACGT'', py ''TTTT'']"
  let ?res = "check_barcodes_within_set remdups ?bs 1"
  have o1: "distinct (remdups xs) \<and> set (remdups xs) = set xs" for xs :: "pystr list"
    by simp
  note inst = within_set_pairs[of remdups ?bs 1, OF o1]
  have A: "distinct (snd ?res)"
    using inst by (rule conjunct1)
  have B: "set (snd ?res) = set ?bs"
    using inst by (rule conjunct2[THEN conjunct1])
  have Cq: "\<forall>a \<in> set (snd ?res). \<forall>b \<in> set (snd ?res).
           a \<noteq> b \<and> num_le (hamming_distance a b) 1 \<longrightarrow>
           length (filter (\<lambda>r. r = within_record a b (hamming_distance a b) \<or>
                               r = within_record b a (hamming_distance b a))
                          (fst ?res)) = 1"
    using inst by (rule conjunct2[THEN conjunct2, THEN conjunct1])
  have ne: "?x \<noteq> ?y" by (simp add: py_def)
  have d: "hamming_distance ?x ?y = PyInt 1" "hamming_distance ?y ?x = PyInt 1"
    by (simp_all add: hamming_distance_def py_def)
  have mem: "?x \<in> set (snd ?res)" "?y \<in> set (snd ?res)"
    unfolding B by simp_all
  have "?x \<noteq> ?y \<and> num_le (hamming_distance ?x ?y) 1 \<longrightarrow>
           length (filter (\<lambda>r. r = within_record ?x ?y (hamming_distance ?x ?y) \<or>
                               r = within_record ?y ?x (hamming_distance ?y ?x))
                          (fst ?res)) = 1"
    using Cq mem by blast
  then have one: "length (filter (\<lambda>r. r = within_record ?x ?y (PyInt 1) \<or>
                               r = within_record ?y ?x (PyInt 1)) (fst ?res)) = 1"
    using ne by (simp add: d)
  have B': "set (snd ?res) = {py ''ACGT'', py ''ACGA'', py ''TTTT''}"
    unfolding B by auto
  show ?thesis
    using A B' one by (intro conjI)
qed

section \<open>Monotonicity in the threshold\<close>

text \<open>
  C6. For fixed input lists (and fixed labels, for the cross-set detector) the number of
  clash records of either detector does not decrease when the threshold grows: for
  \<open>t1 \<le> t2\<close> the count at \<open>t1\<close> is at most the count at \<open>t2\<close>. For the within-set
  detector this holds even when the two calls see the set in different orders, since the
  number of records does not depend on the order.
\<close>

theorem clash_count_monotone:
  assumes "t1 \<le> t2"
    and "distinct (list_set1 barcodes) \<and> set (list_set1 barcodes) = set barcodes"
    and "distinct (list_set2 barcodes) \<and> set (list_set2 barcodes) = set barcodes"
  shows "length (fst (check_barcodes_within_set list_set1 barcodes t1))
           \<le> length (fst (check_barcodes_within_set list_set2 barcodes t2))
         \<and> length (check_barcodes_between_sets set1 set2 t1 n1 n2)
           \<le> length (check_barcodes_between_sets set1 set2 t2 n1 n2)"
proof
  let ?P = "\<lambda>t. \<lambda>(bc1, bc2). num_le (hamming_distance bc1 bc2) t"
  have mono: "?P t1 x \<Longrightarrow> ?P t2 x" for x
    using assms(1) by (auto intro: num_le_mono)
  have sym: "?P t2 (a, b) = ?P t2 (b, a)" for a b
    by (simp add: hamming_distance_comm[of a b])
  have "length (filter (?P t1) (combinations2 (list_set1 barcodes)))
          \<le> length (filter (?P t2) (combinations2 (list_set1 barcodes)))"
    using mono by (rule length_filter_mono)
  also have "\<dots> = length (filter (?P t2) (combinations2 (list_set2 barcodes)))"
    using assms(2,3) sym
    by (intro filter_combinations2_order[of "list_set1 barcodes" "list_set2 barcodes" "?P t2"])
       auto
  finally show "length (fst (check_barcodes_within_set list_set1 barcodes t1))
           \<le> length (fst (check_barcodes_within_set list_set2 barcodes t2))"
    by (simp add: within_set_clashes)
  have "length (filter (?P t1) (List.product set1 set2))
          \<le> length (filter (?P t2) (List.product set1 set2))"
    using mono by (rule length_filter_mono)
  then show "length (check_barcodes_between_sets set1 set2 t1 n1 n2)
           \<le> length (check_barcodes_between_sets set1 set2 t2 n1 n2)"
    by (simp add: between_sets_clashes)
qed

text \<open>The theorem at thresholds 0 and 1, with two different set orders.\<close>

theorem clash_count_monotone_witness:
  "(0::int) \<le> 1
   \<and> length (fst (check_barcodes_within_set remdups
                     [py ''ACGT'', py ''ACGA'', py ''ACGT'', py ''TTTT''] 0))
     \<le> length (fst (check_barcodes_within_set (\<lambda>xs. rev (remdups xs))
                     [py ''ACGT'', py ''ACGA'', py ''ACGT'', py ''TTTT''] 1))
   \<and> length (check_barcodes_between_sets [py ''AAAA''] [py ''AAAT''] 0 (py ''A'') (py ''B''))
     \<le> length (check_barcodes_between_sets [py ''AAAA''] [py ''AAAT''] 1 (py ''A'') (py ''B''))"
proof -
  let ?bs = "[py ''ACGT'', py ''ACGA'', py ''ACGT'', py ''TTTT'']"
  have le: "(0::int) \<le> 1" by simp
  have o1: "distinct (remdups ?bs) \<and> set (remdups ?bs) = set ?bs"
    by (simp only: distinct_remdups set_remdups simp_thms)
  have o2: "distinct (rev (remdups ?bs)) \<and> set (rev (remdups ?bs)) = set ?bs"
    by (simp only: distinct_rev set_rev distinct_remdups set_remdups simp_thms)
  show ?thesis
    using le clash_count_monotone[of 0 1 remdups ?bs "\<lambda>xs. rev (remdups xs)"
            "[py ''AAAA'']" "[py ''AAAT'']" "py ''A''" "py ''B''", OF le o1 o2]
    by (rule conjI)
qed

section \<open>Claims about the validator's routing\<close>

text \<open>
  C5. \<open>validate_barcodes\<close> routes every element of its input to exactly one of its two
  output lists and keeps the input order in both. An element goes to the valid list, in
  trimmed and uppercased form, if and only if it is non-empty after trimming and every
  character of its uppercased form is one of A, C, G, T; otherwise it goes to the invalid
  list as it was given, untrimmed. Hence every valid output is a non-empty string over
  A, C, G, T, and the two outputs together have as many entries as the input. The
  hypothesis is that the uppercase form of a character is never the empty string, as
  Unicode has it.
\<close>

theorem validate_barcodes_routes:
  assumes uc: "\<And>c. uc c \<noteq> []"
  shows
    "validate_barcodes uc barcodes =
       (map (\<lambda>bc. upper uc (strip bc))
            (filter (\<lambda>bc. strip bc \<noteq> [] \<and>
                           (\<forall>c \<in> set (upper uc (strip bc)). c \<in> set (py ''ACGT''))) barcodes),
        filter (\<lambda>bc. \<not> (strip bc \<noteq> [] \<and>
                           (\<forall>c \<in> set (upper uc (strip bc)). c \<in> set (py ''ACGT'')))) barcodes)
     \<and> (\<forall>v \<in> set (fst (validate_barcodes uc barcodes)). v \<noteq> [] \<and> set v \<subseteq> set (py ''ACGT''))
     \<and> length (fst (validate_barcodes uc barcodes)) + length (snd (validate_barcodes uc barcodes))
         = length barcodes"
proof -
  have ok: "(upper uc (strip bc) \<noteq> [] \<and> list_all (\<lambda>c. c \<in> set (py ''ACGT'')) (upper uc (strip bc)))
            = (strip bc \<noteq> [] \<and> (\<forall>c \<in> set (upper uc (strip bc)). c \<in> set (py ''ACGT'')))" for bc
    using upper_nonempty[of uc "strip bc", OF uc] by (simp add: list_all_iff)
  have eq: "validate_barcodes uc barcodes =
       (map (\<lambda>bc. upper uc (strip bc))
            (filter (\<lambda>bc. strip bc \<noteq> [] \<and>
                           (\<forall>c \<in> set (upper uc (strip bc)). c \<in> set (py ''ACGT''))) barcodes),
        filter (\<lambda>bc. \<not> (strip bc \<noteq> [] \<and>
                           (\<forall>c \<in> set (upper uc (strip bc)). c \<in> set (py ''ACGT'')))) barcodes)"
    by (simp only: validate_barcodes_eq ok)
  have valid: "\<forall>v \<in> set (fst (validate_barcodes uc barcodes)). v \<noteq> [] \<and> set v \<subseteq> set (py ''ACGT'')"
    by (auto simp: validate_barcodes_eq list_all_iff)
  have len: "length (fst (validate_barcodes uc barcodes)) + length (snd (validate_barcodes uc barcodes))
         = length barcodes"
    by (simp only: validate_barcodes_eq fst_conv snd_conv length_map sum_length_filter_compl)
  show ?thesis using eq valid len by (intro conjI)
qed

text \<open>The theorem at [" acgt ", "ACGX", "  "], with the identity as the uppercase
  mapping beyond ASCII.\<close>

theorem validate_barcodes_routes_witness:
  "validate_barcodes (\<lambda>c. [c]) [py '' acgt '', py ''ACGX'', py ''  '']
     = ([py ''ACGT''], [py ''ACGX'', py ''  ''])"
proof -
  let ?uc = "\<lambda>c::nat. [c]"
  have uc: "?uc c \<noteq> []" for c by simp
  have sp: "isspace 32" "\<not> isspace 97" "\<not> isspace 116" "\<not> isspace 65" "\<not> isspace 88"
    by (simp_all add: isspace_def)
  have s1: "strip (py '' acgt '') = py ''acgt''"
    and s2: "strip (py ''ACGX'') = py ''ACGX''"
    and s3: "strip (py ''  '') = []"
    by (simp_all add: strip_def py_def sp)
  have u1: "upper ?uc (py ''acgt'') = py ''ACGT''"
    and u2: "upper ?uc (py ''ACGX'') = py ''ACGX''"
    by (simp_all add: upper_def py_def upper_cp_ascii_examples)
  have ne: "py ''acgt'' \<noteq> []" "py ''ACGX'' \<noteq> []"
    by (simp_all add: py_def)
  have m1: "\<forall>c \<in> set (py ''ACGT''). c \<in> set (py ''ACGT'')" by simp
  have m2: "\<not> (\<forall>c \<in> set (py ''ACGX''). c \<in> set (py ''ACGT''))"
    by (simp add: py_def)
  have "validate_barcodes ?uc [py '' acgt '', py ''ACGX'', py ''  ''] =
       (map (\<lambda>bc. upper ?uc (strip bc))
            (filter (\<lambda>bc. strip bc \<noteq> [] \<and>
                           (\<forall>c \<in> set (upper ?uc (strip bc)). c \<in> set (py ''ACGT'')))
                    [py '' acgt '', py ''ACGX'', py ''  '']),
        filter (\<lambda>bc. \<not> (strip bc \<noteq> [] \<and>
                           (\<forall>c \<in> set (upper ?uc (strip bc)). c \<in> set (py ''ACGT''))))
               [py '' acgt '', py ''ACGX'', py ''  ''])"
    using validate_barcodes_routes[of ?uc "[py '' acgt '', py ''ACGX'', py ''  '']", OF uc]
    by (rule conjunct1)
  also have "\<dots> = ([py ''ACGT''], [py ''ACGX'', py ''  ''])"
    using m2 by (simp add: s1 s2 s3 u1 u2 ne m1 del: list.set)
  finally show ?thesis .
qed

section \<open>Totality of the core functions\<close>

text \<open>
  C9. The four core functions are total on lists of strings and an integer threshold:
  on every such input each of them returns a result and raises no exception. On
  arbitrary Python values the functions can raise (\<open>Inl\<close>); on strings and an integer
  threshold each returns (\<open>Inr\<close>), and what it returns is the result computed on the
  strings. In particular \<open>validate_barcodes\<close> does not fail on a malformed barcode: it
  puts it in the invalid list. For the within-set detector the hypothesis is what Python
  guarantees of \<open>list(set(\<cdot>))\<close>, from which the listing consists of strings.
\<close>

theorem core_functions_total:
  "dyn_validate_barcodes uc (map PStr barcodes)
       = Inr (fst (validate_barcodes uc barcodes), map PStr (snd (validate_barcodes uc barcodes)))
   \<and> (\<forall>bc \<in> set barcodes.
         \<not> (upper uc (strip bc) \<noteq> [] \<and>
            (\<forall>c \<in> set (upper uc (strip bc)). c \<in> set (py ''ACGT'')))
         \<longrightarrow> bc \<in> set (snd (validate_barcodes uc barcodes)))
   \<and> dyn_hamming_distance (PStr s1) (PStr s2) = Inr (hamming_distance s1 s2)
   \<and> (distinct (list_set (map PStr barcodes)) \<and>
       set (list_set (map PStr barcodes)) = set (map PStr barcodes) \<longrightarrow>
        (\<exists>ul. list_set (map PStr barcodes) = map PStr ul \<and>
              dyn_check_barcodes_within_set list_set (map PStr barcodes) (PInt t) =
                Inr (map dyn_of_dict (fst (check_barcodes_within_set (\<lambda>xs. ul) barcodes t)),
                     map PStr ul)))
   \<and> dyn_check_barcodes_between_sets (map PStr set1) (map PStr set2) (PInt t) n1 n2
       = Inr (map dyn_of_dict (check_barcodes_between_sets set1 set2 t n1 n2))"
proof (intro conjI impI)
  show "dyn_validate_barcodes uc (map PStr barcodes)
       = Inr (fst (validate_barcodes uc barcodes), map PStr (snd (validate_barcodes uc barcodes)))"
    by (simp add: dyn_validate_barcodes_def dyn_validate_loop_str validate_barcodes_eq)
next
  show "\<forall>bc \<in> set barcodes.
         \<not> (upper uc (strip bc) \<noteq> [] \<and>
            (\<forall>c \<in> set (upper uc (strip bc)). c \<in> set (py ''ACGT'')))
         \<longrightarrow> bc \<in> set (snd (validate_barcodes uc barcodes))"
    by (auto simp: validate_barcodes_eq list_all_iff)
next
  show "dyn_hamming_distance (PStr s1) (PStr s2) = Inr (hamming_distance s1 s2)"
    by (rule dyn_hamming_distance_str)
next
  assume "distinct (list_set (map PStr barcodes)) \<and>
          set (list_set (map PStr barcodes)) = set (map PStr barcodes)"
  then have "set (list_set (map PStr barcodes)) \<subseteq> set (map PStr barcodes)"
    by simp
  then obtain ul where ul: "list_set (map PStr barcodes) = map PStr ul"
    using strings_listing by blast
  have "dyn_check_barcodes_within_set list_set (map PStr barcodes) (PInt t) =
          Inr (map dyn_of_dict (fst (check_barcodes_within_set (\<lambda>xs. ul) barcodes t)),
               map PStr ul)"
    by (simp add: dyn_check_barcodes_within_set_def ul combinations2_map
          dyn_within_loop_str within_set_clashes)
  with ul show "\<exists>ul. list_set (map PStr barcodes) = map PStr ul \<and>
              dyn_check_barcodes_within_set list_set (map PStr barcodes) (PInt t) =
                Inr (map dyn_of_dict (fst (check_barcodes_within_set (\<lambda>xs. ul) barcodes t)),
                     map PStr ul)"
    by blast
next
  show "dyn_check_barcodes_between_sets (map PStr set1) (map PStr set2) (PInt t) n1 n2
       = Inr (map dyn_of_dict (check_barcodes_between_sets set1 set2 t n1 n2))"
    by (simp add: dyn_check_barcodes_between_sets_def dyn_between_outer_str
          between_sets_clashes)
qed

text \<open>The theorem at the input ["ACGX", "ACGT"] for the validator, where the malformed
  "ACGX" is returned in the invalid list, and at ["ACGT", "ACGA"] with threshold 1 and
  \<open>remdups\<close> as the set order for the within-set detector.\<close>

theorem core_functions_total_witness:
  "dyn_validate_barcodes (\<lambda>c. [c]) [PStr (py ''ACGX''), PStr (py ''ACGT'')]
       = Inr ([py ''ACGT''], [PStr (py ''ACGX'')])
   \<and> py ''ACGX'' \<in> set (snd (validate_barcodes (\<lambda>c. [c]) [py ''ACGX'', py ''ACGT'']))
   \<and> (\<exists>clashes. dyn_check_barcodes_within_set remdups
                    [PStr (py ''ACGT''), PStr (py ''ACGA'')] (PInt 1)
                  = Inr (clashes, [PStr (py ''ACGT''), PStr (py ''ACGA'')]))"
proof -
  let ?uc = "\<lambda>c::nat. [c]"
  let ?bs = "[py ''ACGX'', py ''ACGT'']"
  let ?ws = "[py ''ACGT'', py ''ACGA'']"
  note inst = core_functions_total[of ?uc ?bs _ _ remdups 1]
  note inst2 = core_functions_total[of ?uc ?ws _ _ remdups 1]
  have sp: "\<not> isspace 65" "\<not> isspace 84" "\<not> isspace 88"
    by (simp_all add: isspace_def)
  have s1: "strip (py ''ACGX'') = py ''ACGX''" and s2: "strip (py ''ACGT'') = py ''ACGT''"
    by (simp_all add: strip_def py_def sp)
  have u1: "upper ?uc (py ''ACGX'') = py ''ACGX''" and u2: "upper ?uc (py ''ACGT'') = py ''ACGT''"
    by (simp_all add: upper_def py_def upper_cp_ascii_examples)
  have ne: "py ''ACGX'' \<noteq> []" "py ''ACGT'' \<noteq> []"
    by (simp_all add: py_def)
  have m1: "list_all (\<lambda>c. c \<in> set (py ''ACGT'')) (py ''ACGT'')"
    by (simp add: list_all_iff)
  have m2: "\<not> list_all (\<lambda>c. c \<in> set (py ''ACGT'')) (py ''ACGX'')"
    by (simp add: py_def)
  have typed: "validate_barcodes ?uc ?bs = ([py ''ACGT''], [py ''ACGX''])"
    by (simp add: validate_barcodes_eq s1 s2 u1 u2 ne m1 m2)
  have bad: "\<not> (upper ?uc (strip (py ''ACGX'')) \<noteq> [] \<and>
               (\<forall>c \<in> set (upper ?uc (strip (py ''ACGX''))). c \<in> set (py ''ACGT'')))"
    using m2 by (simp add: s1 u1 list_all_iff)
  have "dyn_validate_barcodes ?uc (map PStr ?bs)
          = Inr (fst (validate_barcodes ?uc ?bs), map PStr (snd (validate_barcodes ?uc ?bs)))"
    using inst by (rule conjunct1)
  then have A: "dyn_validate_barcodes ?uc [PStr (py ''ACGX''), PStr (py ''ACGT'')]
       = Inr ([py ''ACGT''], [PStr (py ''ACGX'')])"
    by (simp add: typed)
  have "\<forall>bc \<in> set ?bs.
         \<not> (upper ?uc (strip bc) \<noteq> [] \<and>
            (\<forall>c \<in> set (upper ?uc (strip bc)). c \<in> set (py ''ACGT'')))
         \<longrightarrow> bc \<in> set (snd (validate_barcodes ?uc ?bs))"
    using inst by (rule conjunct2[THEN conjunct1])
  moreover have "py ''ACGX'' \<in> set ?bs" by simp
  ultimately have B: "py ''ACGX'' \<in> set (snd (validate_barcodes ?uc ?bs))"
    using bad by blast
  have x_ne_y: "py ''ACGT'' \<noteq> py ''ACGA''"
    by (simp add: py_def)
  have listing: "remdups (map PStr ?ws) = [PStr (py ''ACGT''), PStr (py ''ACGA'')]"
    using x_ne_y by simp
  have "distinct (remdups (map PStr ?ws)) \<and>
        set (remdups (map PStr ?ws)) = set (map PStr ?ws) \<longrightarrow>
        (\<exists>ul. remdups (map PStr ?ws) = map PStr ul \<and>
              dyn_check_barcodes_within_set remdups (map PStr ?ws) (PInt 1) =
                Inr (map dyn_of_dict (fst (check_barcodes_within_set (\<lambda>xs. ul) ?ws 1)),
                     map PStr ul))"
    using inst2 by (rule conjunct2[THEN conjunct2, THEN conjunct2, THEN conjunct1])
  moreover have "distinct (remdups (map PStr ?ws)) \<and>
        set (remdups (map PStr ?ws)) = set (map PStr ?ws)"
    by (simp only: distinct_remdups set_remdups simp_thms)
  ultimately obtain ul where
    "remdups (map PStr ?ws) = map PStr ul"
    "dyn_check_barcodes_within_set remdups (map PStr ?ws) (PInt 1) =
       Inr (map dyn_of_dict (fst (check_barcodes_within_set (\<lambda>xs. ul) ?ws 1)), map PStr ul)"
    by blast
  then have "dyn_check_barcodes_within_set remdups (map PStr ?ws) (PInt 1) =
       Inr (map dyn_of_dict (fst (check_barcodes_within_set (\<lambda>xs. ul) ?ws 1)),
            [PStr (py ''ACGT''), PStr (py ''ACGA'')])"
    using listing by simp
  then have C: "\<exists>clashes. dyn_check_barcodes_within_set remdups
                    [PStr (py ''ACGT''), PStr (py ''ACGA'')] (PInt 1)
                  = Inr (clashes, [PStr (py ''ACGT''), PStr (py ''ACGA'')])"
    by simp
  show ?thesis
    using A B C by (intro conjI)
qed

end
